theory Spec2Isabelle
  imports Complex_Main
begin

section \<open>react-loads: the \<open>useLoads\<close> hook\<close>

text \<open>
  A shallow embedding of \<^verbatim>\<open>useLoads\<close> (the TypeScript file of the hook). The hook is a
  bundle of closures over one consumer instance. Each closure is a function of
  \<^item> \<open>cfg\<close>: the values the closure captured at the render that created it (the cache key,
    the load policy, the flags and intervals of the configuration);
  \<^item> \<open>c\<close>: the consumer instance, which owns the mutable parts: the reducer state, the
    \<^verbatim>\<open>counter\<close> ref, the \<^verbatim>\<open>hasMounted\<close> ref and the three timers;
  \<^item> \<open>now\<close>: the reading of \<^verbatim>\<open>new Date()\<close> in milliseconds;
  \<^item> the world: the module-level cache maps, every consumer's state, and the log of the
    calls made to user code.
  Each closure returns the world it leaves behind. JavaScript's \<^verbatim>\<open>undefined\<close> is \<open>None\<close>.
\<close>

subsection \<open>Data\<close>

type_synonym key = string
type_synonym cid = nat
type_synonym pid = nat

text \<open>The members of \<^verbatim>\<open>STATES\<close> that the hook names.\<close>

datatype LoadingState =
  IDLE | PENDING | PENDING_SLOW | RESOLVED | REJECTED | RELOADING | RELOADING_SLOW

text \<open>
  Modelled from the spec: \<^verbatim>\<open>LOAD_POLICIES\<close> lives in the constants module, which is not
  part of the sources at hand. The hook names \<^verbatim>\<open>LOAD_ONLY\<close>, \<^verbatim>\<open>CACHE_FIRST\<close> and
  \<^verbatim>\<open>CACHE_ONLY\<close>; the specification lists default, load-only, cache-first, cache-only.
\<close>

datatype LoadPolicy = DEFAULT | LOAD_ONLY | CACHE_FIRST | CACHE_ONLY

text \<open>
  \<^verbatim>\<open>Record<Response, Err>\<close>. Responses and errors share one value type, as the optimistic
  path passes the same \<^verbatim>\<open>data: any\<close> to either field. A field the object does not carry
  is \<open>None\<close>.
\<close>

record 'a Record =
  state :: LoadingState
  response :: "'a option"
  error :: "'a option"
  updated :: "int option"
  isCached :: "bool option"

text \<open>The argument of \<^verbatim>\<open>dispatch\<close>.\<close>

record 'a Action =
  atype :: LoadingState
  aisCached :: "bool option"
  aresponse :: "'a option"
  aerror :: "'a option"

text \<open>
  An argument of the load function. \<open>ClassInstance\<close> is a value whose
  \<^verbatim>\<open>constructor.name\<close> is \<^verbatim>\<open>'Class'\<close> (a synthetic event), which \<^verbatim>\<open>load\<close> filters out;
  \<open>Nullish\<close> is \<^verbatim>\<open>null\<close> or \<^verbatim>\<open>undefined\<close>, which has no \<^verbatim>\<open>constructor\<close> to read.
\<close>

datatype 'a Arg = Nullish | ClassInstance | Arg 'a

text \<open>\<^verbatim>\<open>rejectRetryInterval\<close>: absent, a number of milliseconds, or a backoff function.\<close>

datatype RejectRetryInterval = NoRetry | RetryMs int | RetryFn "nat \<Rightarrow> int"

text \<open>
  The values a render of the hook computes and its closures capture. \<open>cacheKey = None\<close> is
  a falsy key (no context), \<open>deferred\<close> is the local \<^verbatim>\<open>defer\<close>. \<open>initialResponse\<close> and
  \<open>variables\<close> are used by \<^verbatim>\<open>load\<close> only for their truthiness and as the default
  arguments; \<open>Some\<close> is truthy.
\<close>

record 'a Config =
  cacheKey :: "key option"
  loadPolicy :: LoadPolicy
  deferred :: bool
  suspense :: bool
  variables :: "'a Arg list option"
  isSameVariables :: bool
  isSameContext :: bool
  initialResponse :: "'a option"
  delay :: int
  timeout :: int
  dedupingInterval :: int
  revalidateTime :: int
  rejectRetryInterval :: RejectRetryInterval
  throwError :: bool
  hasOnResolve :: bool
  hasOnReject :: bool

text \<open>What a pending timer will run.\<close>

datatype 'a TimerCallback =
  LoadingCallback bool bool pid
  | RetryCallback "'a Arg list"

text \<open>
  Modelled from the spec: the hooks \<^verbatim>\<open>useTimeout\<close> and \<^verbatim>\<open>useDetectMounted\<close> are not part of
  the sources at hand. A timer is a slot holding the callback last scheduled and its delay
  in milliseconds; clearing empties the slot. \<open>hasMounted\<close> is the ref's current value.
\<close>

record 'a Consumer =
  localRecord :: "'a Record"
  counter :: nat
  hasMounted :: bool
  delayTimeout :: "('a TimerCallback \<times> int) option"
  timeoutTimeout :: "('a TimerCallback \<times> int) option"
  errorRetryTimeout :: "('a TimerCallback \<times> int) option"

text \<open>Calls the hook makes to callbacks supplied by the user.\<close>

datatype 'a Callback =
  OnResolve cid "'a option"
  | OnReject cid "'a option"
  | OptimisticCallback nat "'a option"

text \<open>
  The world. \<open>records\<close>, \<open>promises\<close>, \<open>suspenders\<close> and \<open>updaters\<close> are the maps of the
  cache module. An entry of \<open>updaters\<close> is the \<^verbatim>\<open>handleData\<close> closure of a consumer; the
  subscription effect registers it under the cache key the closure itself captured, so the
  entry is the consumer's id and the captured key is the key of the list.
  \<open>calls\<close> logs every invocation of a load function: the consumer, the function given in
  \<^verbatim>\<open>opts.fn\<close> (if any) and the arguments. A promise is an identity, \<open>nextPromise\<close> the next
  fresh one.
\<close>

record 'a World =
  records :: "key \<rightharpoonup> 'a Record"
  promises :: "key \<rightharpoonup> pid"
  suspenders :: "key \<rightharpoonup> bool"
  updaters :: "key option \<rightharpoonup> cid list"
  consumers :: "cid \<Rightarrow> 'a Consumer"
  calls :: "(cid \<times> nat option \<times> 'a Arg list) list"
  callbacks :: "'a Callback list"
  nextPromise :: pid

subsection \<open>The cache store\<close>

text \<open>
  Modelled from the spec: the cache module is not part of the sources at hand. Its records
  store has \<^verbatim>\<open>get(key)\<close>, returning the Record or nothing, and
  \<^verbatim>\<open>set(key, recordOrUpdater, opts)\<close>, taking a literal Record or a function from the
  previous Record to the next. The Record's \<open>updated\<close> timestamp is the time of the write.
  The store is the in-memory default, with no expiry.
\<close>

datatype 'a RecordOrUpdater = Literal "'a Record" | Updater "'a Record option \<Rightarrow> 'a Record"

definition records_get :: "key \<Rightarrow> 'a World \<Rightarrow> 'a Record option" where
  "records_get k w = records w k"

definition records_set :: "key \<Rightarrow> 'a RecordOrUpdater \<Rightarrow> int \<Rightarrow> 'a World \<Rightarrow> 'a World" where
  "records_set k valOrFn now w =
     (let val = (case valOrFn of Literal r \<Rightarrow> r | Updater f \<Rightarrow> f (records w k))
      in w\<lparr>records := (records w)(k \<mapsto> val\<lparr>updated := Some now\<rparr>)\<rparr>)"

subsection \<open>The reducer\<close>

definition IDLE_RECORD :: "'a Record" where
  "IDLE_RECORD = \<lparr>state = IDLE, response = None, error = None, updated = None, isCached = None\<rparr>"

fun reducer :: "'a Record \<Rightarrow> 'a Action \<Rightarrow> 'a Record" where
  "reducer s a =
     (case atype a of
        IDLE \<Rightarrow> IDLE_RECORD
      | PENDING \<Rightarrow> s\<lparr>state := PENDING\<rparr>
      | PENDING_SLOW \<Rightarrow> s\<lparr>state := PENDING_SLOW\<rparr>
      | RESOLVED \<Rightarrow>
          \<lparr>state = RESOLVED, response = aresponse a, error = None, updated = None,
           isCached = aisCached a\<rparr>
      | REJECTED \<Rightarrow>
          \<lparr>state = REJECTED, response = None, error = aerror a, updated = None,
           isCached = aisCached a\<rparr>
      | RELOADING \<Rightarrow> s\<lparr>state := RELOADING\<rparr>
      | RELOADING_SLOW \<Rightarrow> s\<lparr>state := RELOADING\<rparr>)"

definition updConsumer :: "cid \<Rightarrow> ('a Consumer \<Rightarrow> 'a Consumer) \<Rightarrow> 'a World \<Rightarrow> 'a World" where
  "updConsumer c f w = w\<lparr>consumers := (consumers w)(c := f (consumers w c))\<rparr>"

definition dispatch :: "cid \<Rightarrow> 'a Action \<Rightarrow> 'a World \<Rightarrow> 'a World" where
  "dispatch c a w = updConsumer c (\<lambda>s. s\<lparr>localRecord := reducer (localRecord s) a\<rparr>) w"

text \<open>
  The action \<^verbatim>\<open>{ type: record.state, isCached: b, ...record }\<close>: the spread comes last, so
  an \<open>isCached\<close> carried by the record wins over \<open>b\<close>.
\<close>

definition recordAction :: "bool \<Rightarrow> 'a Record \<Rightarrow> 'a Action" where
  "recordAction b r =
     \<lparr>atype = state r,
      aisCached = (case isCached r of Some x \<Rightarrow> Some x | None \<Rightarrow> Some b),
      aresponse = response r, aerror = error r\<rparr>"

text \<open>An action that carries a type only.\<close>

definition typeAction :: "LoadingState \<Rightarrow> 'a Action" where
  "typeAction t = \<lparr>atype = t, aisCached = None, aresponse = None, aerror = None\<rparr>"

subsection \<open>\<^verbatim>\<open>handleLoading\<close>\<close>

text \<open>
  The updater spreads the previous Record, which is nothing when the key has none; the
  \<open>state\<close> of \<open>emptyObject\<close> is overwritten at once.
\<close>

definition emptyObject :: "'a Record" where
  "emptyObject = \<lparr>state = IDLE, response = None, error = None, updated = None, isCached = None\<rparr>"

definition handleLoading ::
  "'a Config \<Rightarrow> cid \<Rightarrow> bool \<Rightarrow> bool \<Rightarrow> pid \<Rightarrow> int \<Rightarrow> 'a World \<Rightarrow> 'a World" where
  "handleLoading cfg c isReloading isSlow promise now w =
     (let reloadingState = (if isSlow then RELOADING_SLOW else RELOADING);
          pendingState = (if isSlow then PENDING_SLOW else PENDING);
          w1 = dispatch c (typeAction (if isReloading then reloadingState else pendingState)) w
      in case cacheKey cfg of
           None \<Rightarrow> w1
         | Some k \<Rightarrow>
             (let w2 = records_set k
                         (Updater (\<lambda>record.
                            (case record of None \<Rightarrow> emptyObject | Some r \<Rightarrow> r)
                              \<lparr>state := (if isReloading then RELOADING else PENDING)\<rparr>))
                         now w1
              in if \<not> isReloading then w2\<lparr>promises := (promises w2)(k \<mapsto> promise)\<rparr>
                 else w2))"

subsection \<open>\<^verbatim>\<open>handleData\<close> and \<^verbatim>\<open>broadcastChanges\<close>\<close>

text \<open>The guard of \<^verbatim>\<open>handleData\<close>: \<^verbatim>\<open>hasMounted.current && (!count || count === counter.current)\<close>.\<close>

definition handleDataGuard :: "cid \<Rightarrow> nat option \<Rightarrow> 'a World \<Rightarrow> bool" where
  "handleDataGuard c count w =
     (hasMounted (consumers w c) \<and>
      (case count of None \<Rightarrow> True | Some n \<Rightarrow> n = 0 \<or> n = counter (consumers w c)))"

text \<open>
  The body of \<^verbatim>\<open>handleData\<close> up to the broadcast: the timers are cleared, the record is
  dispatched, and under a truthy cache key the record is stored, the suspender flag is set
  and the promise is deleted.
\<close>

definition commitData :: "key option \<Rightarrow> cid \<Rightarrow> 'a Record \<Rightarrow> int \<Rightarrow> 'a World \<Rightarrow> 'a World" where
  "commitData ck c record now w =
     (let w1 = updConsumer c (\<lambda>s. s\<lparr>delayTimeout := None, timeoutTimeout := None\<rparr>) w;
          w2 = dispatch c (recordAction (ck \<noteq> None) record) w1
      in case ck of
           None \<Rightarrow> w2
         | Some k \<Rightarrow>
             (let w3 = records_set k (Literal record) now w2;
                  isSuspended = suspenders w3 k;
                  w4 = w3\<lparr>suspenders := (suspenders w3)(k \<mapsto> (isSuspended = None))\<rparr>
              in w4\<lparr>promises := (promises w4)(k := None)\<rparr>))"

text \<open>\<^verbatim>\<open>handleData\<close> called with \<^verbatim>\<open>shouldBroadcast: false\<close>, as an updater is.\<close>

definition handleDataQuiet ::
  "key option \<Rightarrow> cid \<Rightarrow> nat option \<Rightarrow> 'a Record \<Rightarrow> int \<Rightarrow> 'a World \<Rightarrow> 'a World" where
  "handleDataQuiet ck c count record now w =
     (if handleDataGuard c count w then commitData ck c record now w else w)"

definition broadcastChanges :: "key \<Rightarrow> 'a Record \<Rightarrow> int \<Rightarrow> 'a World \<Rightarrow> 'a World" where
  "broadcastChanges k record now w =
     (case updaters w (Some k) of
        None \<Rightarrow> w
      | Some us \<Rightarrow> fold (\<lambda>u. handleDataQuiet (Some k) u None record now) us w)"

definition handleData ::
  "key option \<Rightarrow> cid \<Rightarrow> nat option \<Rightarrow> 'a Record \<Rightarrow> bool \<Rightarrow> int \<Rightarrow> 'a World \<Rightarrow> 'a World" where
  "handleData ck c count record shouldBroadcast now w =
     (if handleDataGuard c count w then
        (let w1 = commitData ck c record now w
         in case ck of
              None \<Rightarrow> w1
            | Some k \<Rightarrow> if shouldBroadcast then broadcastChanges k record now w1 else w1)
      else w)"

subsection \<open>\<^verbatim>\<open>handleOptimisticData\<close>\<close>

text \<open>
  Modelled from the spec: \<^verbatim>\<open>utils.getCacheKey\<close> is not part of the sources at hand. The key
  is the resource identifier alone, or the identifier concatenated with the hash of the
  parameters, per strategy; without an identifier there is no key.
\<close>

datatype CacheStrategy = CONTEXT_AND_VARIABLES | CONTEXT_ONLY

definition getCacheKey :: "key option \<Rightarrow> string option \<Rightarrow> CacheStrategy \<Rightarrow> key option" where
  "getCacheKey context variablesHash cacheStrategy =
     (case context of
        None \<Rightarrow> None
      | Some ctx \<Rightarrow>
          (case variablesHash of
             Some h \<Rightarrow> if cacheStrategy = CONTEXT_AND_VARIABLES then Some (ctx @ h) else Some ctx
           | None \<Rightarrow> Some ctx))"

text \<open>
  The second argument of \<^verbatim>\<open>setResponse\<close> and \<^verbatim>\<open>setError\<close>: an object naming a context and
  the hash of its variables, or a callback (an identity).
\<close>

datatype ContextOrCallback = OptimisticContext "key option" "string option" | CallbackFn nat

text \<open>The data: a value, or a function of the cached response or error.\<close>

datatype 'a OptimisticData = Data "'a option" | DataFn "'a option \<Rightarrow> 'a option"

text \<open>The cache key the call aims at: the named one, or the consumer's own.\<close>

definition optimisticCacheKey ::
  "'a Config \<Rightarrow> CacheStrategy \<Rightarrow> ContextOrCallback option \<Rightarrow> key option" where
  "optimisticCacheKey cfg cacheStrategy contextOrCallback =
     (case contextOrCallback of
        Some (OptimisticContext context variablesHash) \<Rightarrow>
          getCacheKey context variablesHash cacheStrategy
      | _ \<Rightarrow> cacheKey cfg)"

definition newData ::
  "key option \<Rightarrow> 'a OptimisticData \<Rightarrow> LoadingState \<Rightarrow> 'a World \<Rightarrow> 'a option" where
  "newData optKey data st w =
     (case data of
        Data d \<Rightarrow> d
      | DataFn f \<Rightarrow>
          (let cachedValue =
                 (case optKey of
                    None \<Rightarrow> IDLE_RECORD
                  | Some k \<Rightarrow> (case records_get k w of None \<Rightarrow> IDLE_RECORD | Some r \<Rightarrow> r))
           in f (if st = RESOLVED then response cachedValue else error cachedValue)))"

definition newRecord :: "LoadingState \<Rightarrow> 'a option \<Rightarrow> 'a Record" where
  "newRecord st d =
     \<lparr>state = st,
      response = (if st = RESOLVED then d else None),
      error = (if st = REJECTED then d else None),
      updated = None, isCached = None\<rparr>"

definition newCallback :: "ContextOrCallback option \<Rightarrow> nat option \<Rightarrow> nat option" where
  "newCallback contextOrCallback callback =
     (case contextOrCallback of Some (CallbackFn f) \<Rightarrow> Some f | _ \<Rightarrow> callback)"

definition invokeCallback :: "nat option \<Rightarrow> 'a option \<Rightarrow> 'a World \<Rightarrow> 'a World" where
  "invokeCallback cb d w =
     (case cb of
        None \<Rightarrow> w
      | Some f \<Rightarrow> w\<lparr>callbacks := callbacks w @ [OptimisticCallback f d]\<rparr>)"

definition handleOptimisticData ::
  "'a Config \<Rightarrow> CacheStrategy \<Rightarrow> cid \<Rightarrow> 'a OptimisticData \<Rightarrow> ContextOrCallback option \<Rightarrow>
   nat option \<Rightarrow> LoadingState \<Rightarrow> nat \<Rightarrow> int \<Rightarrow> 'a World \<Rightarrow> 'a World" where
  "handleOptimisticData cfg cacheStrategy c data contextOrCallback callback st count now w =
     (let optKey = optimisticCacheKey cfg cacheStrategy contextOrCallback;
          d = newData optKey data st w;
          w1 = (case optKey of
                  None \<Rightarrow> handleData (cacheKey cfg) c (Some count) (newRecord st d) True now w
                | Some k \<Rightarrow>
                    if cacheKey cfg = Some k
                    then handleData (cacheKey cfg) c (Some count) (newRecord st d) True now w
                    else records_set k (Literal (newRecord st d)) now w)
      in invokeCallback (newCallback contextOrCallback callback) d w1)"

subsection \<open>\<^verbatim>\<open>load\<close>\<close>

record LoadOpts =
  isManualInvoke :: bool
  fn :: "nat option"

text \<open>
  How a call of \<^verbatim>\<open>load(opts)(..._args)\<close> ends: at one of its early returns, with the
  \<^verbatim>\<open>TypeError\<close> of reading \<^verbatim>\<open>constructor\<close> of a nullish argument, or having invoked the
  load function, with the captured \<^verbatim>\<open>count\<close> and the promise.
\<close>

datatype LoadOutcome = Suppressed | TypeError | SuspenseConsumed | Deduped | Started nat pid

text \<open>
  The load function is the user's: an invocation is logged and yields a fresh promise.
  When the function has the optimistic form, the calls it makes to \<^verbatim>\<open>setResponse\<close> and
  \<^verbatim>\<open>setError\<close> are calls of \<open>handleOptimisticData\<close> with the \<^verbatim>\<open>count\<close> of this invocation.
  The settling of the promise is a later call of \<open>onFulfilled\<close> or \<open>onRejected\<close> below.
\<close>

definition invokeFn :: "LoadOpts \<Rightarrow> cid \<Rightarrow> 'a Arg list \<Rightarrow> 'a World \<Rightarrow> pid \<times> 'a World" where
  "invokeFn opts c args w =
     (nextPromise w, w\<lparr>calls := calls w @ [(c, fn opts, args)], nextPromise := nextPromise w + 1\<rparr>)"

definition setDelayTimeout :: "cid \<Rightarrow> 'a TimerCallback \<Rightarrow> int \<Rightarrow> 'a World \<Rightarrow> 'a World" where
  "setDelayTimeout c cb ms w = updConsumer c (\<lambda>s. s\<lparr>delayTimeout := Some (cb, ms)\<rparr>) w"

definition setTimeoutTimeout :: "cid \<Rightarrow> 'a TimerCallback \<Rightarrow> int \<Rightarrow> 'a World \<Rightarrow> 'a World" where
  "setTimeoutTimeout c cb ms w = updConsumer c (\<lambda>s. s\<lparr>timeoutTimeout := Some (cb, ms)\<rparr>) w"

definition setErrorRetryTimeout :: "cid \<Rightarrow> 'a TimerCallback \<Rightarrow> int \<Rightarrow> 'a World \<Rightarrow> 'a World" where
  "setErrorRetryTimeout c cb ms w = updConsumer c (\<lambda>s. s\<lparr>errorRetryTimeout := Some (cb, ms)\<rparr>) w"

text \<open>
  The cache lookup of \<^verbatim>\<open>load\<close>: the cached record, whether \<^verbatim>\<open>load\<close> returns here, and the
  world. A record without \<open>updated\<close> makes both differences \<^verbatim>\<open>NaN\<close>, and both comparisons
  false.
\<close>

definition loadCached ::
  "'a Config \<Rightarrow> LoadOpts \<Rightarrow> cid \<Rightarrow> int \<Rightarrow> 'a World \<Rightarrow> 'a Record option \<times> bool \<times> 'a World" where
  "loadCached cfg opts c now w =
     (case cacheKey cfg of
        None \<Rightarrow> (None, False, w)
      | Some k \<Rightarrow>
          if loadPolicy cfg = LOAD_ONLY then (None, False, w)
          else
            (case records_get k w of
               None \<Rightarrow> (None, False, w)
             | Some cachedRecord \<Rightarrow>
                 if deferred cfg then (Some cachedRecord, False, w)
                 else
                   (let w1 = dispatch c (recordAction True cachedRecord) w
                    in if state cachedRecord = RESOLVED \<or> state cachedRecord = REJECTED then
                         (let isStale =
                                (case updated cachedRecord of
                                   None \<Rightarrow> False
                                 | Some t \<Rightarrow> \<bar>now - t\<bar> \<ge> revalidateTime cfg);
                              isDuplicate =
                                ((case updated cachedRecord of
                                    None \<Rightarrow> False
                                  | Some t \<Rightarrow> \<bar>now - t\<bar> < dedupingInterval cfg)
                                 \<and> \<not> isManualInvoke opts);
                              isCachedWithCacheFirst =
                                (\<not> isStale \<and> \<not> isManualInvoke opts
                                 \<and> loadPolicy cfg = CACHE_FIRST)
                          in (Some cachedRecord, isDuplicate \<or> isCachedWithCacheFirst, w1))
                       else (Some cachedRecord, False, w1))))"

definition load ::
  "'a Config \<Rightarrow> LoadOpts \<Rightarrow> cid \<Rightarrow> 'a Arg list \<Rightarrow> int \<Rightarrow> 'a World \<Rightarrow> LoadOutcome \<times> 'a World" where
  "load cfg opts c rawArgs now w =
     (if \<not> isManualInvoke opts \<and> variables cfg \<noteq> None \<and> isSameVariables cfg then (Suppressed, w)
      else if list_ex (\<lambda>arg. case arg of Nullish \<Rightarrow> True | _ \<Rightarrow> False) rawArgs then (TypeError, w)
      else
        (let filtered = filter (\<lambda>arg. case arg of ClassInstance \<Rightarrow> False | _ \<Rightarrow> True) rawArgs;
             args = (case variables cfg of
                       Some vs \<Rightarrow> if filtered = [] then vs else filtered
                     | None \<Rightarrow> filtered);
             w1 = updConsumer c (\<lambda>s. s\<lparr>counter := counter s + 1\<rparr>) w;
             count = counter (consumers w1 c)
         in case (case cacheKey cfg of
                    Some k \<Rightarrow> if suspense cfg \<and> suspenders w1 k = Some True then Some k else None
                  | None \<Rightarrow> None) of
              Some k \<Rightarrow> (SuspenseConsumed, w1\<lparr>suspenders := (suspenders w1)(k \<mapsto> False)\<rparr>)
            | None \<Rightarrow>
                (case loadCached cfg opts c now w1 of
                   (cachedRecord, True, w2) \<Rightarrow> (Deduped, w2)
                 | (cachedRecord, False, w2) \<Rightarrow>
                     (let (promise, w3) = invokeFn opts c args w2;
                          isReloading =
                            (isSameContext cfg \<and>
                             (count > 1 \<or> cachedRecord \<noteq> None \<or> initialResponse cfg \<noteq> None));
                          w4 = (if delay cfg > 0
                                then setDelayTimeout c
                                       (LoadingCallback isReloading False promise) (delay cfg) w3
                                else handleLoading cfg c isReloading False promise now w3);
                          w5 = (if timeout cfg > 0
                                then setTimeoutTimeout c
                                       (LoadingCallback isReloading True promise) (timeout cfg) w4
                                else w4)
                      in (Started count promise, w5)))))"

subsection \<open>The settling of the promise\<close>

text \<open>The \<^verbatim>\<open>then\<close> callback of \<^verbatim>\<open>load\<close>, for the invocation that captured \<open>count\<close>.\<close>

definition onFulfilled ::
  "'a Config \<Rightarrow> cid \<Rightarrow> nat \<Rightarrow> 'a option \<Rightarrow> int \<Rightarrow> 'a World \<Rightarrow> 'a World" where
  "onFulfilled cfg c count resp now w =
     (let w1 = handleData (cacheKey cfg) c (Some count)
                 \<lparr>state = RESOLVED, response = resp, error = None, updated = None,
                  isCached = None\<rparr> True now w
      in if hasOnResolve cfg then w1\<lparr>callbacks := callbacks w1 @ [OnResolve c resp]\<rparr> else w1)"

text \<open>\<^verbatim>\<open>~~x\<close>: the number truncated towards zero and wrapped to a signed 32-bit integer.\<close>

definition toInt32 :: "real \<Rightarrow> int" where
  "toInt32 x =
     (let n = (if x < 0 then \<lceil>x\<rceil> else \<lfloor>x\<rfloor>); m = n mod 2 ^ 32
      in if m \<ge> 2 ^ 31 then m - 2 ^ 32 else m)"

text \<open>
  \<^verbatim>\<open>Math.random() + 0.5\<close> as the code computes it: in binary64, rounded to nearest, ties
  to even. \<open>random\<close> is the value of \<^verbatim>\<open>Math.random()\<close>, a number in \<open>[0, 1)\<close>, so the exact
  sum lies in \<open>[0.5, 1.5)\<close>, where the binary64 numbers are the multiples of \<open>2^-53\<close> below
  1 and the multiples of \<open>2^-52\<close> from 1 on.
\<close>

definition roundTiesToEven :: "real \<Rightarrow> real \<Rightarrow> real" where
  "roundTiesToEven ulp x =
     (let q = x / ulp; f = \<lfloor>q\<rfloor>
      in if q - of_int f < 1 / 2 then of_int f * ulp
         else if 1 / 2 < q - of_int f then of_int (f + 1) * ulp
         else if even f then of_int f * ulp
         else of_int (f + 1) * ulp)"

definition plusHalf :: "real \<Rightarrow> real" where
  "plusHalf random =
     (let x = random + 1 / 2
      in if x < 1 then roundTiesToEven (1 / 2 ^ 53) x else roundTiesToEven (1 / 2 ^ 52) x)"

text \<open>
  The delay of the retry, or \<open>None\<close> when \<^verbatim>\<open>rejectRetryInterval\<close> is falsy;
  \<open>counterCurrent\<close> is \<^verbatim>\<open>counter.current\<close>. The product of the sum and \<^verbatim>\<open>1 << count\<close>, a
  power of two of at most \<open>2^8\<close>, is exact. A numeric \<^verbatim>\<open>rejectRetryInterval\<close> is an integer
  number of milliseconds; for one below \<open>2^44\<close> in magnitude the last product, with a factor of
  at most 384, is exact too.
\<close>

definition retryDelay :: "RejectRetryInterval \<Rightarrow> nat \<Rightarrow> real \<Rightarrow> int option" where
  "retryDelay rri counterCurrent random =
     (let count = min counterCurrent 8
      in case rri of
           NoRetry \<Rightarrow> None
         | RetryFn f \<Rightarrow> Some (f count)
         | RetryMs ms \<Rightarrow>
             if ms = 0 then None
             else Some (toInt32 (plusHalf random * 2 ^ count) * ms))"

text \<open>
  The \<^verbatim>\<open>catch\<close> callback of \<^verbatim>\<open>load\<close>. The result says whether the error is thrown again.
\<close>

definition onRejected ::
  "'a Config \<Rightarrow> cid \<Rightarrow> nat \<Rightarrow> 'a Arg list \<Rightarrow> 'a option \<Rightarrow> int \<Rightarrow> real \<Rightarrow> 'a World \<Rightarrow>
   bool \<times> 'a World" where
  "onRejected cfg c count args err now random w =
     (let w1 = handleData (cacheKey cfg) c (Some count)
                 \<lparr>state = REJECTED, response = None, error = err, updated = None,
                  isCached = None\<rparr> True now w;
          w2 = (if hasOnReject cfg then w1\<lparr>callbacks := callbacks w1 @ [OnReject c err]\<rparr> else w1);
          w3 = (case retryDelay (rejectRetryInterval cfg) (counter (consumers w2 c)) random of
                  None \<Rightarrow> w2
                | Some ms \<Rightarrow> setErrorRetryTimeout c (RetryCallback args) ms w2)
      in (throwError cfg \<and> \<not> suspense cfg, w3))"

subsection \<open>The subscription effect and the suspense read of a render\<close>



text \<open>
  The end of a render of the hook: the render throws a promise, or goes on to return the
  loader in the world it leaves.
\<close>

datatype 'a Render = is_Suspend: Suspend pid | Rendered "'a World"





subsection \<open>The worlds the hook reaches\<close>


text \<open>Every key with a promise or a suspender flag has a record.\<close>

definition cacheConsistent :: "'a World \<Rightarrow> bool" where
  "cacheConsistent w \<longleftrightarrow>
     dom (promises w) \<subseteq> dom (records w) \<and> dom (suspenders w) \<subseteq> dom (records w)"

subsection \<open>The delay the specification states\<close>

text \<open>
  The specification's formula for the retry delay, in its own words:
  \<open>random_in[0.5,1.5) * 2^min(attempt,8) * baseInterval\<close>.
\<close>

definition specRetryDelay :: "real \<Rightarrow> nat \<Rightarrow> int \<Rightarrow> real" where
  "specRetryDelay random attempt baseInterval =
     (random + 1 / 2) * 2 ^ min attempt 8 * real_of_int baseInterval"

subsection \<open>Example consumers\<close>

text \<open>
  A consumer of the context \<^verbatim>\<open>'dog'\<close> under the default configuration (deduping interval
  500 ms, slow threshold 5 s, revalidation after 5 minutes), mounted, before its first load.
\<close>

definition exampleConfig :: "nat Config" where
  "exampleConfig =
     \<lparr>cacheKey = Some ''dog'', loadPolicy = DEFAULT, deferred = False, suspense = False,
      variables = None, isSameVariables = False, isSameContext = True,
      initialResponse = None, delay = 0, timeout = 5000, dedupingInterval = 500,
      revalidateTime = 300000, rejectRetryInterval = NoRetry, throwError = False,
      hasOnResolve = False, hasOnReject = False\<rparr>"





text \<open>A consumer that retries a rejected load, on a base interval of one second.\<close>

definition retryConfig :: "nat Config" where
  "retryConfig = exampleConfig\<lparr>rejectRetryInterval := RetryMs 1000\<rparr>"

definition freshConsumer :: "nat Consumer" where
  "freshConsumer =
     \<lparr>localRecord = \<lparr>state = PENDING, response = None, error = None, updated = None,
                     isCached = None\<rparr>,
      counter = 0, hasMounted = True, delayTimeout = None, timeoutTimeout = None,
      errorRetryTimeout = None\<rparr>"


definition automatic :: LoadOpts where
  "automatic = \<lparr>isManualInvoke = False, fn = None\<rparr>"

definition manual :: LoadOpts where
  "manual = \<lparr>isManualInvoke = True, fn = None\<rparr>"

text \<open>Consumer 0 has mounted and its load effect has run, at time 0.\<close>

definition loadingWorld :: "nat World" where
  "loadingWorld =
     \<lparr>records = [''dog'' \<mapsto> \<lparr>state = PENDING, response = None, error = None,
                             updated = Some 0, isCached = None\<rparr>],
      promises = [''dog'' \<mapsto> 0], suspenders = Map.empty, updaters = Map.empty,
      consumers = (\<lambda>_. freshConsumer)
        (0 := freshConsumer\<lparr>counter := 1,
               timeoutTimeout := Some (LoadingCallback False True 0, 5000)\<rparr>),
      calls = [(0, None, [])], callbacks = [], nextPromise = 1\<rparr>"

text \<open>Consumer 0 has subscribed, and its promise was fulfilled with 7 at time 50.\<close>

definition resolvedWorld :: "nat World" where
  "resolvedWorld =
     \<lparr>records = [''dog'' \<mapsto> \<lparr>state = RESOLVED, response = Some 7, error = None,
                             updated = Some 50, isCached = None\<rparr>],
      promises = Map.empty, suspenders = [''dog'' \<mapsto> False],
      updaters = [Some ''dog'' \<mapsto> [0]],
      consumers = (\<lambda>_. freshConsumer)
        (0 := \<lparr>localRecord = \<lparr>state = RESOLVED, response = Some 7, error = None,
                               updated = None, isCached = Some True\<rparr>,
               counter = 1, hasMounted = True, delayTimeout = None, timeoutTimeout = None,
               errorRetryTimeout = None\<rparr>),
      calls = [(0, None, [])], callbacks = [], nextPromise = 1\<rparr>"

text \<open>Then the user has called the consumer's \<^verbatim>\<open>load\<close> at time 1000; the reload is in flight.\<close>

definition reloadingWorld :: "nat World" where
  "reloadingWorld =
     \<lparr>records = [''dog'' \<mapsto> \<lparr>state = RELOADING, response = Some 7, error = None,
                             updated = Some 1000, isCached = None\<rparr>],
      promises = Map.empty, suspenders = [''dog'' \<mapsto> False],
      updaters = [Some ''dog'' \<mapsto> [0]],
      consumers = (\<lambda>_. freshConsumer)
        (0 := \<lparr>localRecord = \<lparr>state = RELOADING, response = Some 7, error = None,
                               updated = None, isCached = Some True\<rparr>,
               counter = 2, hasMounted = True, delayTimeout = None,
               timeoutTimeout = Some (LoadingCallback True True 1, 5000),
               errorRetryTimeout = None\<rparr>),
      calls = [(0, None, []), (0, None, [])], callbacks = [], nextPromise = 2\<rparr>"

text \<open>
  Consumers 0 and 1 are both subscribed to \<^verbatim>\<open>'dog'\<close>, consumer 1 under the cache-only
  policy, whose load effect does nothing. Consumer 0 has invoked its load twice, at mount
  and by hand at time 20, and neither promise has settled.
\<close>

definition sharedWorld :: "nat World" where
  "sharedWorld =
     \<lparr>records = [''dog'' \<mapsto> \<lparr>state = RELOADING, response = None, error = None,
                             updated = Some 20, isCached = None\<rparr>],
      promises = [''dog'' \<mapsto> 0], suspenders = Map.empty,
      updaters = [Some ''dog'' \<mapsto> [0, 1]],
      consumers = (\<lambda>_. freshConsumer)
        (0 := \<lparr>localRecord = \<lparr>state = RELOADING, response = None, error = None,
                               updated = None, isCached = None\<rparr>,
               counter = 2, hasMounted = True, delayTimeout = None,
               timeoutTimeout = Some (LoadingCallback True True 1, 5000),
               errorRetryTimeout = None\<rparr>),
      calls = [(0, None, []), (0, None, [])], callbacks = [], nextPromise = 2\<rparr>"

text \<open>What the reducer makes of a settled record, whatever the state before.\<close>

definition settledLocal :: "bool \<Rightarrow> 'a Record \<Rightarrow> 'a Record" where
  "settledLocal b r =
     \<lparr>state = state r,
      response = (if state r = RESOLVED then response r else None),
      error = (if state r = REJECTED then error r else None),
      updated = None,
      isCached = (case isCached r of Some x \<Rightarrow> Some x | None \<Rightarrow> Some b)\<rparr>"

section \<open>Properties\<close>

subsection \<open>What each step leaves alone\<close>

declare reducer.simps [simp del]

lemma updConsumer_fields [simp]:
  "records (updConsumer c f w) = records w"
  "promises (updConsumer c f w) = promises w"
  "suspenders (updConsumer c f w) = suspenders w"
  "updaters (updConsumer c f w) = updaters w"
  "calls (updConsumer c f w) = calls w"
  "callbacks (updConsumer c f w) = callbacks w"
  "nextPromise (updConsumer c f w) = nextPromise w"
  "consumers (updConsumer c f w) = (consumers w)(c := f (consumers w c))"
  by (simp_all add: updConsumer_def)

lemma dispatch_fields [simp]:
  "records (dispatch c a w) = records w"
  "promises (dispatch c a w) = promises w"
  "suspenders (dispatch c a w) = suspenders w"
  "updaters (dispatch c a w) = updaters w"
  "calls (dispatch c a w) = calls w"
  "callbacks (dispatch c a w) = callbacks w"
  "nextPromise (dispatch c a w) = nextPromise w"
  "consumers (dispatch c a w) =
     (consumers w)(c := (consumers w c)\<lparr>localRecord := reducer (localRecord (consumers w c)) a\<rparr>)"
  by (simp_all add: dispatch_def)

lemma records_set_fields [simp]:
  "promises (records_set k v now w) = promises w"
  "suspenders (records_set k v now w) = suspenders w"
  "updaters (records_set k v now w) = updaters w"
  "calls (records_set k v now w) = calls w"
  "callbacks (records_set k v now w) = callbacks w"
  "nextPromise (records_set k v now w) = nextPromise w"
  "consumers (records_set k v now w) = consumers w"
  by (simp_all add: records_set_def Let_def)

lemma records_set_Literal [simp]:
  "records (records_set k (Literal r) now w) = (records w)(k \<mapsto> r\<lparr>updated := Some now\<rparr>)"
  by (simp add: records_set_def)

lemma commitData_fields [simp]:
  "updaters (commitData ck c r now w) = updaters w"
  "calls (commitData ck c r now w) = calls w"
  "callbacks (commitData ck c r now w) = callbacks w"
  "nextPromise (commitData ck c r now w) = nextPromise w"
  by (simp_all add: commitData_def Let_def split: option.splits)

lemma commitData_consumers:
  "consumers (commitData ck c r now w) =
     (consumers w)(c := (consumers w c)
        \<lparr>delayTimeout := None, timeoutTimeout := None,
         localRecord := reducer (localRecord (consumers w c)) (recordAction (ck \<noteq> None) r)\<rparr>)"
  by (cases ck) (simp_all add: commitData_def Let_def)

lemma commitData_records:
  "records (commitData (Some k) c r now w) = (records w)(k \<mapsto> r\<lparr>updated := Some now\<rparr>)"
  by (simp add: commitData_def Let_def)

lemma commitData_records_None:
  "records (commitData None c r now w) = records w"
  by (simp add: commitData_def Let_def)

lemma handleDataGuard_commitData [simp]:
  "handleDataGuard u count (commitData ck c r now w) = handleDataGuard u count w"
  by (cases count) (simp_all add: handleDataGuard_def commitData_consumers)

lemma handleDataQuiet_fields [simp]:
  "updaters (handleDataQuiet ck c count r now w) = updaters w"
  "calls (handleDataQuiet ck c count r now w) = calls w"
  "callbacks (handleDataQuiet ck c count r now w) = callbacks w"
  "nextPromise (handleDataQuiet ck c count r now w) = nextPromise w"
  by (simp_all add: handleDataQuiet_def)

lemma handleDataQuiet_refs [simp]:
  "hasMounted (consumers (handleDataQuiet ck c count r now w) u) = hasMounted (consumers w u)"
  "counter (consumers (handleDataQuiet ck c count r now w) u) = counter (consumers w u)"
  by (simp_all add: handleDataQuiet_def commitData_consumers)

lemma handleDataQuiet_other:
  "u \<noteq> c \<Longrightarrow> consumers (handleDataQuiet ck c count r now w) u = consumers w u"
  by (simp add: handleDataQuiet_def commitData_consumers)

lemma handleData_False: "handleData ck c count r False now w = handleDataQuiet ck c count r now w"
  by (simp add: handleData_def handleDataQuiet_def Let_def split: option.splits)

lemma reducer_settled:
  "state r = RESOLVED \<or> state r = REJECTED \<Longrightarrow> reducer s (recordAction b r) = settledLocal b r"
  by (auto simp: recordAction_def settledLocal_def reducer.simps)

lemma quiet_keeps_settled:
  assumes "state r = RESOLVED \<or> state r = REJECTED"
    and "localRecord (consumers w b) = settledLocal True r"
  shows "localRecord (consumers (handleDataQuiet (Some k) u None r now w) b) = settledLocal True r"
  using assms by (simp add: handleDataQuiet_def commitData_consumers reducer_settled)

lemma quiet_applies:
  assumes "state r = RESOLVED \<or> state r = REJECTED" and "hasMounted (consumers w b)"
  shows "localRecord (consumers (handleDataQuiet (Some k) b None r now w) b) = settledLocal True r"
  using assms
  by (simp add: handleDataQuiet_def handleDataGuard_def commitData_consumers reducer_settled)

lemma fold_quiet_fields [simp]:
  "updaters (fold (\<lambda>u. handleDataQuiet ck u count r now) us w) = updaters w"
  "calls (fold (\<lambda>u. handleDataQuiet ck u count r now) us w) = calls w"
  "callbacks (fold (\<lambda>u. handleDataQuiet ck u count r now) us w) = callbacks w"
  "nextPromise (fold (\<lambda>u. handleDataQuiet ck u count r now) us w) = nextPromise w"
  by (induction us arbitrary: w; simp)+

lemma fold_quiet_refs [simp]:
  "hasMounted (consumers (fold (\<lambda>u. handleDataQuiet ck u count r now) us w) b) =
     hasMounted (consumers w b)"
  "counter (consumers (fold (\<lambda>u. handleDataQuiet ck u count r now) us w) b) =
     counter (consumers w b)"
  by (induction us arbitrary: w; simp)+

lemma fold_quiet_keeps_settled:
  assumes "state r = RESOLVED \<or> state r = REJECTED"
  shows "localRecord (consumers w b) = settledLocal True r \<Longrightarrow>
     localRecord (consumers (fold (\<lambda>u. handleDataQuiet (Some k) u None r now) us w) b) =
       settledLocal True r"
proof (induction us arbitrary: w)
  case Nil
  then show ?case by simp
next
  case (Cons u us)
  show ?case
    using Cons.IH [OF quiet_keeps_settled [OF assms Cons.prems]] by simp
qed

lemma fold_quiet_reaches:
  assumes "state r = RESOLVED \<or> state r = REJECTED"
  shows "b \<in> set us \<Longrightarrow> hasMounted (consumers w b) \<Longrightarrow>
     localRecord (consumers (fold (\<lambda>u. handleDataQuiet (Some k) u None r now) us w) b) =
       settledLocal True r"
proof (induction us arbitrary: w)
  case Nil
  then show ?case by simp
next
  case (Cons u us)
  show ?case
  proof (cases "u = b")
    case True
    have "localRecord (consumers (handleDataQuiet (Some k) b None r now w) b) = settledLocal True r"
      using quiet_applies [OF assms Cons.prems(2)] .
    then show ?thesis
      using True fold_quiet_keeps_settled [OF assms] by simp
  next
    case False
    with Cons.prems have "b \<in> set us" by simp
    moreover have "hasMounted (consumers (handleDataQuiet (Some k) u None r now w) b)"
      using Cons.prems(2) by simp
    ultimately show ?thesis using Cons.IH by simp
  qed
qed

lemma quiet_keeps_record:
  "records w k = Some x \<Longrightarrow> x = r\<lparr>updated := Some now\<rparr> \<Longrightarrow>
   records (handleDataQuiet (Some k) u None r now w) k = Some x"
  by (simp add: handleDataQuiet_def commitData_records)

lemma fold_quiet_keeps_record:
  "records w k = Some (r\<lparr>updated := Some now\<rparr>) \<Longrightarrow>
   records (fold (\<lambda>u. handleDataQuiet (Some k) u None r now) us w) k =
     Some (r\<lparr>updated := Some now\<rparr>)"
proof (induction us arbitrary: w)
  case Nil
  then show ?case by simp
next
  case (Cons u us)
  show ?case using Cons.IH [OF quiet_keeps_record [OF Cons.prems refl]] by simp
qed

lemma broadcast_fields [simp]:
  "updaters (broadcastChanges k r now w) = updaters w"
  "calls (broadcastChanges k r now w) = calls w"
  "callbacks (broadcastChanges k r now w) = callbacks w"
  "nextPromise (broadcastChanges k r now w) = nextPromise w"
  "hasMounted (consumers (broadcastChanges k r now w) b) = hasMounted (consumers w b)"
  "counter (consumers (broadcastChanges k r now w) b) = counter (consumers w b)"
  by (simp_all add: broadcastChanges_def split: option.splits)

lemma handleData_stale: "\<not> handleDataGuard c count w \<Longrightarrow> handleData ck c count r sb now w = w"
  by (simp add: handleData_def)

lemma handleData_fields [simp]:
  "updaters (handleData ck c count r sb now w) = updaters w"
  "calls (handleData ck c count r sb now w) = calls w"
  "callbacks (handleData ck c count r sb now w) = callbacks w"
  "nextPromise (handleData ck c count r sb now w) = nextPromise w"
  "hasMounted (consumers (handleData ck c count r sb now w) b) = hasMounted (consumers w b)"
  "counter (consumers (handleData ck c count r sb now w) b) = counter (consumers w b)"
  by (simp_all add: handleData_def Let_def commitData_consumers split: option.splits)

lemma handleData_applied_local:
  assumes "handleDataGuard c count w" and "state r = RESOLVED \<or> state r = REJECTED"
  shows "localRecord (consumers (handleData ck c count r True now w) c) =
           settledLocal (ck \<noteq> None) r"
proof (cases ck)
  case None
  then show ?thesis
    using assms by (simp add: handleData_def commitData_consumers reducer_settled)
next
  case (Some k)
  have "localRecord (consumers (commitData (Some k) c r now w) c) = settledLocal True r"
    using assms(2) by (simp add: commitData_consumers reducer_settled)
  then have "localRecord (consumers (broadcastChanges k r now (commitData (Some k) c r now w)) c) =
      settledLocal True r"
    using fold_quiet_keeps_settled [OF assms(2)]
    by (simp add: broadcastChanges_def split: option.splits)
  then show ?thesis using Some assms(1) by (simp add: handleData_def)
qed

lemma handleData_applied_record:
  assumes "handleDataGuard c count w"
  shows "records (handleData (Some k) c count r True now w) k = Some (r\<lparr>updated := Some now\<rparr>)"
proof -
  have "records (commitData (Some k) c r now w) k = Some (r\<lparr>updated := Some now\<rparr>)"
    by (simp add: commitData_records)
  then have "records (broadcastChanges k r now (commitData (Some k) c r now w)) k =
      Some (r\<lparr>updated := Some now\<rparr>)"
    by (simp add: broadcastChanges_def fold_quiet_keeps_record split: option.splits)
  then show ?thesis using assms by (simp add: handleData_def)
qed

lemma handleData_reaches_subscriber:
  assumes "handleDataGuard a count w" and "state r = RESOLVED \<or> state r = REJECTED"
    and "updaters w (Some k) = Some us" and "b \<in> set us" and "hasMounted (consumers w b)"
  shows "localRecord (consumers (handleData (Some k) a count r True now w) b) =
           settledLocal True r"
proof -
  let ?w1 = "commitData (Some k) a r now w"
  have "hasMounted (consumers ?w1 b)"
    using assms(5) by (auto simp: commitData_consumers)
  then have "localRecord (consumers (fold (\<lambda>u. handleDataQuiet (Some k) u None r now) us ?w1) b) =
      settledLocal True r"
    using fold_quiet_reaches [OF assms(2) assms(4)] by blast
  then show ?thesis
    using assms(1,3) by (simp add: handleData_def broadcastChanges_def)
qed

lemma stale_guard: "0 < n \<Longrightarrow> n \<noteq> counter (consumers w c) \<Longrightarrow> \<not> handleDataGuard c (Some n) w"
  by (simp add: handleDataGuard_def)

lemma current_guard:
  "hasMounted (consumers w c) \<Longrightarrow> n = counter (consumers w c) \<Longrightarrow> handleDataGuard c (Some n) w"
  by (simp add: handleDataGuard_def)

lemma setErrorRetryTimeout_local [simp]:
  "localRecord (consumers (setErrorRetryTimeout c cb ms w) b) = localRecord (consumers w b)"
  "records (setErrorRetryTimeout c cb ms w) = records w"
  "calls (setErrorRetryTimeout c cb ms w) = calls w"
  by (simp_all add: setErrorRetryTimeout_def)

lemma onFulfilled_local:
  "localRecord (consumers (onFulfilled cfg c n resp now w) b) =
   localRecord (consumers (handleData (cacheKey cfg) c (Some n)
      \<lparr>state = RESOLVED, response = resp, error = None, updated = None, isCached = None\<rparr>
      True now w) b)"
  by (simp add: onFulfilled_def Let_def)

lemma onRejected_local:
  "localRecord (consumers (snd (onRejected cfg c n args err now random w)) b) =
   localRecord (consumers (handleData (cacheKey cfg) c (Some n)
      \<lparr>state = REJECTED, response = None, error = err, updated = None, isCached = None\<rparr>
      True now w) b)"
  by (simp add: onRejected_def Let_def split: option.splits)

lemma onRejected_records:
  "records (snd (onRejected cfg c n args err now random w)) =
   records (handleData (cacheKey cfg) c (Some n)
      \<lparr>state = REJECTED, response = None, error = err, updated = None, isCached = None\<rparr>
      True now w)"
  by (simp add: onRejected_def Let_def split: option.splits)

lemma onFulfilled_refs [simp]:
  "hasMounted (consumers (onFulfilled cfg c n resp now w) b) = hasMounted (consumers w b)"
  "counter (consumers (onFulfilled cfg c n resp now w) b) = counter (consumers w b)"
  "calls (onFulfilled cfg c n resp now w) = calls w"
  "updaters (onFulfilled cfg c n resp now w) = updaters w"
  by (simp_all add: onFulfilled_def Let_def)

lemma timers_fields [simp]:
  "records (setDelayTimeout c cb ms w) = records w"
  "promises (setDelayTimeout c cb ms w) = promises w"
  "suspenders (setDelayTimeout c cb ms w) = suspenders w"
  "calls (setDelayTimeout c cb ms w) = calls w"
  "nextPromise (setDelayTimeout c cb ms w) = nextPromise w"
  "records (setTimeoutTimeout c cb ms w) = records w"
  "promises (setTimeoutTimeout c cb ms w) = promises w"
  "suspenders (setTimeoutTimeout c cb ms w) = suspenders w"
  "calls (setTimeoutTimeout c cb ms w) = calls w"
  "nextPromise (setTimeoutTimeout c cb ms w) = nextPromise w"
  by (simp_all add: setDelayTimeout_def setTimeoutTimeout_def)

lemma handleLoading_fields [simp]:
  "calls (handleLoading cfg c isReloading isSlow p now w) = calls w"
  "nextPromise (handleLoading cfg c isReloading isSlow p now w) = nextPromise w"
  "suspenders (handleLoading cfg c isReloading isSlow p now w) = suspenders w"
  by (simp_all add: handleLoading_def Let_def split: option.splits)

lemma handleLoading_local:
  "localRecord (consumers (handleLoading cfg c isReloading isSlow p now w) c) =
     reducer (localRecord (consumers w c))
       (typeAction (if isReloading then (if isSlow then RELOADING_SLOW else RELOADING)
                    else (if isSlow then PENDING_SLOW else PENDING)))"
  by (simp add: handleLoading_def Let_def split: option.splits)

lemma handleLoading_slow_state:
  "state (localRecord (consumers (handleLoading cfg c False True p now w) c)) = PENDING_SLOW"
  "state (localRecord (consumers (handleLoading cfg c True True p now w) c)) = RELOADING"
  by (simp_all add: handleLoading_local typeAction_def reducer.simps)




text \<open>The \<^verbatim>\<open>count\<close> an invocation captures is never 0, so \<^verbatim>\<open>!count\<close> is false for it.\<close>

lemma load_count_positive:
  "fst (load cfg opts c rawArgs now w) = Started n p \<Longrightarrow> 0 < n"
  by (auto simp: load_def Let_def split: if_splits option.splits prod.splits bool.splits)

subsection \<open>The example worlds are reached by running the hook\<close>






lemma sharedWorld_facts:
  "cacheKey exampleConfig = Some ''dog''"
  "updaters sharedWorld (Some ''dog'') = Some [0, 1]"
  "hasMounted (consumers sharedWorld 0)"
  "hasMounted (consumers sharedWorld 1)"
  "counter (consumers sharedWorld 0) = 2"
  "counter (consumers sharedWorld 1) = 0"
  "calls sharedWorld = [(0, None, []), (0, None, [])]"
  by (simp_all add: exampleConfig_def sharedWorld_def freshConsumer_def)

subsection \<open>The retry delay\<close>

lemma toInt32_small: "0 \<le> x \<Longrightarrow> x < 2 ^ 31 \<Longrightarrow> toInt32 x = \<lfloor>x\<rfloor>"
proof -
  assume a: "0 \<le> x" "x < 2 ^ 31"
  have "0 \<le> \<lfloor>x\<rfloor>" using a(1) by simp
  moreover have "\<lfloor>x\<rfloor> < 2 ^ 31" using a(2) by (simp add: floor_less_iff)
  ultimately show ?thesis using a(1) by (simp add: toInt32_def Let_def)
qed

lemma plusHalf_examples:
  "plusHalf (1 / 4) = 3 / 4" "plusHalf (3 / 4) = 5 / 4" "plusHalf (1 - 1 / 2 ^ 53) = 3 / 2"
  by (simp_all add: plusHalf_def roundTiesToEven_def Let_def)

text \<open>Rounding stays between two numbers of the grid that enclose the argument.\<close>

lemma roundTiesToEven_between:
  assumes "0 < ulp" and "of_int m * ulp \<le> x" and "x \<le> of_int n * ulp"
  shows "of_int m * ulp \<le> roundTiesToEven ulp x \<and> roundTiesToEven ulp x \<le> of_int n * ulp"
proof -
  define q where "q = x / ulp"
  define f where "f = \<lfloor>q\<rfloor>"
  have qm: "of_int m \<le> q" and qn: "q \<le> of_int n"
    using assms by (simp_all add: q_def pos_le_divide_eq pos_divide_le_eq)
  have fm: "m \<le> f" using qm by (simp add: f_def le_floor_iff)
  have fn: "f \<le> n" using qn by (simp add: f_def floor_le_iff)
  have up: "of_int f < q \<Longrightarrow> f + 1 \<le> n"
  proof -
    assume "of_int f < q"
    then have "of_int f < (of_int n :: real)" using qn by linarith
    then show ?thesis by simp
  qed
  have lo: "of_int m * ulp \<le> of_int f * ulp" "of_int m * ulp \<le> of_int (f + 1) * ulp"
    using fm assms(1) by (simp_all add: mult_right_mono)
  have hi: "of_int f * ulp \<le> of_int n * ulp"
    using fn assms(1) by (simp add: mult_right_mono)
  have hi': "of_int f < q \<Longrightarrow> of_int (f + 1) * ulp \<le> of_int n * ulp"
  proof -
    assume "of_int f < q"
    then have "f + 1 \<le> n" by (rule up)
    then have "(of_int (f + 1) :: real) \<le> of_int n" by (simp only: of_int_le_iff)
    then show ?thesis using assms(1) by (simp only: mult_right_mono less_imp_le)
  qed
  show ?thesis
    unfolding roundTiesToEven_def Let_def q_def [symmetric] f_def [symmetric]
    using lo hi hi' by (auto simp: not_less)
qed

lemma plusHalf_range:
  assumes "0 \<le> random" and "random < 1"
  shows "1 / 2 \<le> plusHalf random \<and> plusHalf random \<le> 3 / 2"
proof (cases "random + 1 / 2 < 1")
  case True
  have "of_int (2 ^ 52) * (1 / 2 ^ 53) \<le> roundTiesToEven (1 / 2 ^ 53) (random + 1 / 2) \<and>
        roundTiesToEven (1 / 2 ^ 53) (random + 1 / 2) \<le> of_int (2 ^ 53) * (1 / 2 ^ 53)"
    using assms True by (intro roundTiesToEven_between) simp_all
  then show ?thesis using True by (simp add: plusHalf_def Let_def)
next
  case False
  have "of_int (2 ^ 52) * (1 / 2 ^ 52) \<le> roundTiesToEven (1 / 2 ^ 52) (random + 1 / 2) \<and>
        roundTiesToEven (1 / 2 ^ 52) (random + 1 / 2) \<le> of_int (3 * 2 ^ 51) * (1 / 2 ^ 52)"
    using assms False by (intro roundTiesToEven_between) simp_all
  then show ?thesis using False by (simp add: plusHalf_def Let_def)
qed

lemma backoff_bounds:
  assumes "0 \<le> random" and "random < 1"
  shows "0 \<le> plusHalf random * 2 ^ min n 8" and "plusHalf random * 2 ^ min n 8 < 2 ^ 31"
proof -
  have r: "1 / 2 \<le> plusHalf random" "plusHalf random \<le> 3 / 2"
    using plusHalf_range [OF assms] by simp_all
  have p: "(2::real) ^ min n 8 \<le> 2 ^ 8" by (rule power_increasing) simp_all
  show "0 \<le> plusHalf random * 2 ^ min n 8" using r(1) by simp
  have "plusHalf random * 2 ^ min n 8 \<le> (3 / 2) * 2 ^ 8"
    using p r by (intro mult_mono) simp_all
  also have "\<dots> < 2 ^ 31" by simp
  finally show "plusHalf random * 2 ^ min n 8 < 2 ^ 31" .
qed

lemma retryDelay_ms:
  assumes "0 \<le> random" and "random < 1" and "ms \<noteq> 0"
  shows "retryDelay (RetryMs ms) n random = Some (\<lfloor>plusHalf random * 2 ^ min n 8\<rfloor> * ms)"
  using toInt32_small [OF backoff_bounds [OF assms(1,2)]] assms(3)
  by (simp add: retryDelay_def Let_def)

text \<open>The largest binary64 number below 1: the sum rounds to 1.5 and the factor is 3.\<close>

lemma retryDelay_rounds_up: "retryDelay (RetryMs 1000) (Suc 0) (1 - 1 / 2 ^ 53) = Some 3000"
  by (simp add: retryDelay_def toInt32_def plusHalf_def roundTiesToEven_def Let_def)

lemma onRejected_retry_timer:
  "errorRetryTimeout (consumers (snd (onRejected cfg c count args err now random w)) c) =
     (case retryDelay (rejectRetryInterval cfg) (counter (consumers w c)) random of
        None \<Rightarrow> errorRetryTimeout (consumers (handleData (cacheKey cfg) c (Some count)
                   \<lparr>state = REJECTED, response = None, error = err, updated = None,
                    isCached = None\<rparr> True now w) c)
      | Some ms \<Rightarrow> Some (RetryCallback args, ms))"
  by (simp add: onRejected_def Let_def setErrorRetryTimeout_def split: option.splits)

subsection \<open>Every reachable world is consistent\<close>


lemma consistent_updConsumer [simp]: "cacheConsistent (updConsumer c f w) = cacheConsistent w"
  by (simp add: cacheConsistent_def)

lemma consistent_dispatch [simp]: "cacheConsistent (dispatch c a w) = cacheConsistent w"
  by (simp add: cacheConsistent_def)






lemma consistent_timers [simp]:
  "cacheConsistent (setDelayTimeout c cb ms w) = cacheConsistent w"
  "cacheConsistent (setTimeoutTimeout c cb ms w) = cacheConsistent w"
  "cacheConsistent (setErrorRetryTimeout c cb ms w) = cacheConsistent w"
  by (simp_all add: setDelayTimeout_def setTimeoutTimeout_def setErrorRetryTimeout_def)








subsection \<open>Loads that invoke the function\<close>

lemma nullish_list_ex:
  "list_ex (\<lambda>arg. case arg of Nullish \<Rightarrow> True | _ \<Rightarrow> False) xs \<longleftrightarrow> Nullish \<in> set xs"
  by (induction xs) (auto split: Arg.splits)

lemma loadCached_manual:
  "isManualInvoke opts \<Longrightarrow> fst (snd (loadCached cfg opts c now w)) = False"
  by (simp add: loadCached_def Let_def split: option.splits)

lemma loadCached_calls [simp]:
  "calls (snd (snd (loadCached cfg opts c now w))) = calls w"
  by (simp add: loadCached_def Let_def split: option.splits)

text \<open>A manual load that is not short-circuited and does not throw invokes the function.\<close>

lemma manual_load_invokes:
  assumes "isManualInvoke opts" and "Nullish \<notin> set rawArgs"
    and "case cacheKey cfg of None \<Rightarrow> True
         | Some k \<Rightarrow> \<not> (suspense cfg \<and> suspenders w k = Some True)"
  shows "\<exists>args. calls (snd (load cfg opts c rawArgs now w)) = calls w @ [(c, fn opts, args)]"
proof -
  let ?w1 = "updConsumer c (\<lambda>s. s\<lparr>counter := Suc (counter s)\<rparr>) w"
  obtain cr skip w2 where lc: "loadCached cfg opts c now ?w1 = (cr, skip, w2)"
    by (cases "loadCached cfg opts c now ?w1") auto
  have "skip = False"
    using loadCached_manual [OF assms(1), of cfg c now ?w1] by (simp add: lc)
  moreover have "calls w2 = calls w"
    using loadCached_calls [of cfg opts c now ?w1] by (simp add: lc)
  ultimately show ?thesis
    using assms
    by (auto simp: load_def lc nullish_list_ex invokeFn_def Let_def
        split: option.splits bool.splits)
qed

section \<open>The claims\<close>

subsection \<open>The sequence counter\<close>

text \<open>
  Claim C1. \<^verbatim>\<open>load\<close> captures \<open>count = counter + 1\<close>, a positive number. When the promise of
  an invocation settles, fulfilled or rejected, and the captured \<open>count\<close> is no longer the
  consumer's counter, the consumer's reducer state is what it was before; this holds in
  every world, so at every point of every sequence of completions. When the captured
  \<open>count\<close> is the counter and the consumer is mounted, the reducer state is the settled
  record. So whatever the order in which the promises settle, the consumer shows the result
  of its last invocation.
\<close>

theorem stale_completion_not_applied:
  assumes "0 < n"
  shows "(n \<noteq> counter (consumers w c) \<longrightarrow>
            localRecord (consumers (onFulfilled cfg c n resp now w) c) =
              localRecord (consumers w c) \<and>
            localRecord (consumers (snd (onRejected cfg c n args err now random w)) c) =
              localRecord (consumers w c)) \<and>
         (n = counter (consumers w c) \<and> hasMounted (consumers w c) \<longrightarrow>
            localRecord (consumers (onFulfilled cfg c n resp now w) c) =
              \<lparr>state = RESOLVED, response = resp, error = None, updated = None,
               isCached = Some (cacheKey cfg \<noteq> None)\<rparr> \<and>
            localRecord (consumers (snd (onRejected cfg c n args err now random w)) c) =
              \<lparr>state = REJECTED, response = None, error = err, updated = None,
               isCached = Some (cacheKey cfg \<noteq> None)\<rparr>)"
proof (intro conjI impI)
  assume stale: "n \<noteq> counter (consumers w c)"
  show "localRecord (consumers (onFulfilled cfg c n resp now w) c) = localRecord (consumers w c)"
    using handleData_stale [OF stale_guard [OF assms stale]] by (simp add: onFulfilled_local)
  show "localRecord (consumers (snd (onRejected cfg c n args err now random w)) c) =
      localRecord (consumers w c)"
    using handleData_stale [OF stale_guard [OF assms stale]] by (simp add: onRejected_local)
next
  assume cur: "n = counter (consumers w c) \<and> hasMounted (consumers w c)"
  then have g: "handleDataGuard c (Some n) w" by (simp add: current_guard)
  show "localRecord (consumers (onFulfilled cfg c n resp now w) c) =
      \<lparr>state = RESOLVED, response = resp, error = None, updated = None,
       isCached = Some (cacheKey cfg \<noteq> None)\<rparr>"
    using handleData_applied_local [OF g]
    by (simp add: onFulfilled_local settledLocal_def)
  show "localRecord (consumers (snd (onRejected cfg c n args err now random w)) c) =
      \<lparr>state = REJECTED, response = None, error = err, updated = None,
       isCached = Some (cacheKey cfg \<noteq> None)\<rparr>"
    using handleData_applied_local [OF g]
    by (simp add: onRejected_local settledLocal_def)
qed

text \<open>
  Consumer 0 has invoked its load twice. Whether the second promise is fulfilled (with 8)
  before or after the first (with 7), the consumer ends showing 8.
\<close>

theorem stale_completion_not_applied_witness:
  "localRecord (consumers (onFulfilled exampleConfig 0 1 (Some 7) 200
       (onFulfilled exampleConfig 0 2 (Some 8) 100 sharedWorld)) 0) =
     \<lparr>state = RESOLVED, response = Some 8, error = None, updated = None,
      isCached = Some True\<rparr> \<and>
   localRecord (consumers (onFulfilled exampleConfig 0 2 (Some 8) 200
       (onFulfilled exampleConfig 0 1 (Some 7) 100 sharedWorld)) 0) =
     \<lparr>state = RESOLVED, response = Some 8, error = None, updated = None,
      isCached = Some True\<rparr>"
proof -
  note c0 = sharedWorld_facts(5) sharedWorld_facts(3)
  have key: "cacheKey exampleConfig \<noteq> None" by (simp add: sharedWorld_facts(1))
  let ?a = "onFulfilled exampleConfig 0 2 (Some 8) 100 sharedWorld"
  let ?b = "onFulfilled exampleConfig 0 1 (Some 7) 100 sharedWorld"
  have first: "localRecord (consumers ?a 0) =
      \<lparr>state = RESOLVED, response = Some 8, error = None, updated = None,
       isCached = Some True\<rparr>"
    using stale_completion_not_applied [of 2 sharedWorld 0 exampleConfig "Some 8" 100] c0 key
    by simp
  have "localRecord (consumers (onFulfilled exampleConfig 0 1 (Some 7) 200 ?a) 0) =
      localRecord (consumers ?a 0)"
    using stale_completion_not_applied [of 1 ?a 0 exampleConfig "Some 7" 200] c0 by simp
  moreover have "localRecord (consumers (onFulfilled exampleConfig 0 2 (Some 8) 200 ?b) 0) =
      \<lparr>state = RESOLVED, response = Some 8, error = None, updated = None,
       isCached = Some True\<rparr>"
    using stale_completion_not_applied [of 2 ?b 0 exampleConfig "Some 8" 200] c0 key by simp
  ultimately show ?thesis using first by simp
qed

subsection \<open>Deduping\<close>

text \<open>
  Claim C2, as amended. The key holds a RESOLVED record written less than the deduping
  interval ago. An automatic (not manual) \<^verbatim>\<open>load\<close> of a consumer of that key that is not
  deferred and whose load policy is not load-only does not invoke the load function: the log
  of invocations is unchanged. A manual \<^verbatim>\<open>load\<close> is not deduped: unless it throws on a
  nullish argument or is short-circuited by the suspender flag of the key (under suspense),
  it invokes the load function once more.
\<close>

theorem deduped_load_skips_operation:
  assumes "cacheKey cfg = Some k" and "records w k = Some r" and "state r = RESOLVED"
    and "updated r = Some t" and "\<bar>now - t\<bar> < dedupingInterval cfg"
  shows "(\<not> isManualInvoke opts \<and> loadPolicy cfg \<noteq> LOAD_ONLY \<and> \<not> deferred cfg \<longrightarrow>
            calls (snd (load cfg opts c rawArgs now w)) = calls w) \<and>
         (isManualInvoke opts \<and> Nullish \<notin> set rawArgs \<and>
          \<not> (suspense cfg \<and> suspenders w k = Some True) \<longrightarrow>
            (\<exists>args. calls (snd (load cfg opts c rawArgs now w)) =
               calls w @ [(c, fn opts, args)]))"
proof (intro conjI impI)
  assume "\<not> isManualInvoke opts \<and> loadPolicy cfg \<noteq> LOAD_ONLY \<and> \<not> deferred cfg"
  then show "calls (snd (load cfg opts c rawArgs now w)) = calls w"
    using assms
    by (simp add: load_def loadCached_def records_get_def Let_def split: option.splits)
next
  assume m: "isManualInvoke opts \<and> Nullish \<notin> set rawArgs \<and>
      \<not> (suspense cfg \<and> suspenders w k = Some True)"
  then have "case cacheKey cfg of None \<Rightarrow> True
      | Some k \<Rightarrow> \<not> (suspense cfg \<and> suspenders w k = Some True)"
    using assms(1) by simp
  then show "\<exists>args. calls (snd (load cfg opts c rawArgs now w)) = calls w @ [(c, fn opts, args)]"
    using m manual_load_invokes [of opts rawArgs cfg w c now] by blast
qed

text \<open>
  The record of \<^verbatim>\<open>'dog'\<close> was resolved at time 50. A second consumer of the key mounts at
  time 100: its load effect does not invoke the function, which has been invoked once. The
  user calls the \<^verbatim>\<open>load\<close> of consumer 0 at time 100: the function is invoked a second time.
\<close>

theorem deduped_load_skips_operation_witness:
  "calls (snd (load exampleConfig automatic 1 [] 100 resolvedWorld)) = [(0, None, [])] \<and>
   length (calls (snd (load exampleConfig manual 0 [] 100 resolvedWorld))) = 2"
proof -
  have h: "cacheKey exampleConfig = Some ''dog''"
    "records resolvedWorld ''dog'' =
       Some \<lparr>state = RESOLVED, response = Some 7, error = None, updated = Some 50,
             isCached = None\<rparr>"
    "state \<lparr>state = RESOLVED, response = Some (7::nat), error = None, updated = Some 50,
            isCached = None\<rparr> = RESOLVED"
    "updated \<lparr>state = RESOLVED, response = Some (7::nat), error = None, updated = Some 50,
              isCached = None\<rparr> = Some 50"
    "\<bar>100 - 50\<bar> < dedupingInterval exampleConfig"
    by (simp_all add: exampleConfig_def resolvedWorld_def)
  have a: "\<not> isManualInvoke automatic \<and> loadPolicy exampleConfig \<noteq> LOAD_ONLY \<and>
      \<not> deferred exampleConfig"
    by (simp add: automatic_def exampleConfig_def)
  have m: "isManualInvoke manual \<and> Nullish \<notin> set ([] :: nat Arg list) \<and>
      \<not> (suspense exampleConfig \<and> suspenders resolvedWorld ''dog'' = Some True)"
    by (simp add: manual_def exampleConfig_def)
  have c: "calls resolvedWorld = [(0, None, [])]" by (simp add: resolvedWorld_def)
  note t = deduped_load_skips_operation [OF h]
  have "calls (snd (load exampleConfig automatic 1 [] 100 resolvedWorld)) = calls resolvedWorld"
    using t [where opts = automatic and c = 1 and rawArgs = "[]", THEN conjunct1,
        rule_format, OF a] .
  moreover have "\<exists>args. calls (snd (load exampleConfig manual 0 [] 100 resolvedWorld)) =
      calls resolvedWorld @ [(0, fn manual, args)]"
    using t [where opts = manual and c = 0 and rawArgs = "[]", THEN conjunct2,
        rule_format, OF m] .
  ultimately show ?thesis using c by auto
qed

text \<open>
  Claim C2 as stated fails. The record of \<^verbatim>\<open>'dog'\<close> was resolved at time 50. At time 100,
  inside the deduping interval of 500 ms, the \<^verbatim>\<open>load\<close> the hook hands to the user (a manual
  invocation) invokes the function a second time, and so does the load effect of a second
  consumer whose policy is load-only.
\<close>

theorem manual_load_not_deduped:
  "calls (snd (load exampleConfig manual 0 [] 100 resolvedWorld)) =
     [(0, None, []), (0, None, [])] \<and>
   calls (snd (load (exampleConfig\<lparr>loadPolicy := LOAD_ONLY\<rparr>) automatic 1 [] 100
            resolvedWorld)) =
     [(0, None, []), (1, None, [])]"
  by (simp add: load_def loadCached_def records_get_def invokeFn_def Let_def
      exampleConfig_def manual_def automatic_def resolvedWorld_def freshConsumer_def)

subsection \<open>Broadcast\<close>

text \<open>
  Claim C3, as amended. Consumer \<open>a\<close> is bound to the key \<open>k\<close> and consumer \<open>b\<close> is
  subscribed to \<open>k\<close>; both are mounted. When a promise of \<open>a\<close> is fulfilled and its captured
  \<open>count\<close> is the counter of \<open>a\<close>, the reducer state of \<open>b\<close> becomes the resolved record,
  no load function is invoked and the counter of \<open>b\<close> is unchanged. A broadcast never
  invokes a load function.
\<close>

theorem applied_resolution_reaches_subscriber:
  assumes "cacheKey cfg = Some k" and "updaters w (Some k) = Some us" and "b \<in> set us"
    and "hasMounted (consumers w a)" and "hasMounted (consumers w b)"
    and "n = counter (consumers w a)"
  shows "localRecord (consumers (onFulfilled cfg a n resp now w) b) =
           \<lparr>state = RESOLVED, response = resp, error = None, updated = None,
            isCached = Some True\<rparr> \<and>
         calls (onFulfilled cfg a n resp now w) = calls w \<and>
         counter (consumers (onFulfilled cfg a n resp now w) b) = counter (consumers w b) \<and>
         calls (broadcastChanges k r now w) = calls w"
proof -
  have g: "handleDataGuard a (Some n) w"
    using assms(4,6) by (rule current_guard)
  have "localRecord (consumers (handleData (Some k) a (Some n)
          \<lparr>state = RESOLVED, response = resp, error = None, updated = None, isCached = None\<rparr>
          True now w) b) =
        settledLocal True
          \<lparr>state = RESOLVED, response = resp, error = None, updated = None, isCached = None\<rparr>"
    using handleData_reaches_subscriber [OF g _ assms(2,3,5)] by simp
  then show ?thesis
    using assms(1) by (simp add: onFulfilled_local settledLocal_def)
qed

text \<open>
  The second promise of consumer 0 is fulfilled with 8: consumer 1, which never invoked a
  load, shows 8.
\<close>

theorem applied_resolution_reaches_subscriber_witness:
  "localRecord (consumers (onFulfilled exampleConfig 0 2 (Some 8) 100 sharedWorld) 1) =
     \<lparr>state = RESOLVED, response = Some 8, error = None, updated = None, isCached = Some True\<rparr> \<and>
   calls (onFulfilled exampleConfig 0 2 (Some 8) 100 sharedWorld) = calls sharedWorld \<and>
   counter (consumers (onFulfilled exampleConfig 0 2 (Some 8) 100 sharedWorld) 1) = 0"
proof -
  have m: "1 \<in> set [0, 1 :: nat]" by simp
  show ?thesis
    using applied_resolution_reaches_subscriber [OF sharedWorld_facts(1,2) m
        sharedWorld_facts(3,4) sharedWorld_facts(5) [symmetric], of "Some 8" 100]
      sharedWorld_facts(6)
    by simp
qed

text \<open>
  Claim C3 as stated fails. Consumer 1 is subscribed to the key of consumer 0. The first
  promise of consumer 0 is fulfilled with 7 while its second is in flight: the completion
  is stale, nothing is broadcast, and consumer 1 shows no response.
\<close>

theorem stale_resolution_not_broadcast:
  "1 \<in> set (the (updaters sharedWorld (cacheKey exampleConfig))) \<and>
   response (localRecord (consumers (onFulfilled exampleConfig 0 1 (Some 7) 100 sharedWorld) 1)) =
     None"
  by (simp add: onFulfilled_local handleData_def handleDataGuard_def exampleConfig_def
      sharedWorld_def freshConsumer_def)

subsection \<open>The suspense read\<close>




subsection \<open>The retry delay\<close>

text \<open>
  Claim C5, as amended. A promise is rejected and \<^verbatim>\<open>rejectRetryInterval\<close> is a non-zero
  integer number of milliseconds. The \<^verbatim>\<open>catch\<close> callback puts into the retry timer the
  call of \<^verbatim>\<open>load\<close> with the same arguments and the delay
  \<open>floor (sum * 2 ^ min counter 8) * interval\<close>, where \<open>counter\<close> is the consumer's sequence
  counter at that moment and \<open>sum\<close>, the binary64 sum of \<^verbatim>\<open>Math.random()\<close> and 0.5, lies
  between 0.5 and 1.5, both included: the product of the jitter and the power is truncated
  to an integer before it is multiplied by the interval. At the counter 1 the integer is 1,
  2 or 3. From the counter 8 on the power is \<open>2 ^ 8\<close>.
\<close>

theorem retry_scheduled_with_truncated_backoff:
  assumes "0 \<le> random" and "random < 1" and "rejectRetryInterval cfg = RetryMs ms"
    and "ms \<noteq> 0" and "\<bar>ms\<bar> < 2 ^ 44"
  shows "errorRetryTimeout (consumers (snd (onRejected cfg c count args err now random w)) c) =
           Some (RetryCallback args,
                 \<lfloor>plusHalf random * 2 ^ min (counter (consumers w c)) 8\<rfloor> * ms) \<and>
         1 / 2 \<le> plusHalf random \<and> plusHalf random \<le> 3 / 2 \<and>
         (counter (consumers w c) = 1 \<longrightarrow>
            \<lfloor>plusHalf random * 2 ^ min (counter (consumers w c)) 8\<rfloor> \<in> {1, 2, 3}) \<and>
         (8 \<le> counter (consumers w c) \<longrightarrow>
            errorRetryTimeout (consumers (snd (onRejected cfg c count args err now random w)) c) =
              Some (RetryCallback args, \<lfloor>plusHalf random * 2 ^ 8\<rfloor> * ms))"
proof -
  have r: "1 / 2 \<le> plusHalf random" "plusHalf random \<le> 3 / 2"
    using plusHalf_range [OF assms(1,2)] by simp_all
  have t: "errorRetryTimeout (consumers (snd (onRejected cfg c count args err now random w)) c) =
      Some (RetryCallback args, \<lfloor>plusHalf random * 2 ^ min (counter (consumers w c)) 8\<rfloor> * ms)"
    by (simp add: onRejected_retry_timer assms(3) retryDelay_ms [OF assms(1,2,4)])
  have one: "counter (consumers w c) = 1 \<longrightarrow>
      \<lfloor>plusHalf random * 2 ^ min (counter (consumers w c)) 8\<rfloor> \<in> {1, 2, 3}"
  proof
    assume c1: "counter (consumers w c) = 1"
    define f where "f = \<lfloor>plusHalf random * 2\<rfloor>"
    have "1 \<le> plusHalf random * 2" "plusHalf random * 2 < 4" using r by simp_all
    then have "1 \<le> f" "f < 4"
      unfolding f_def by (simp_all only: le_floor_iff floor_less_iff of_int_1 of_int_numeral)
    then have "f \<in> {1, 2, 3}" by auto
    then show "\<lfloor>plusHalf random * 2 ^ min (counter (consumers w c)) 8\<rfloor> \<in> {1, 2, 3}"
      by (simp add: c1 f_def)
  qed
  have eight: "8 \<le> counter (consumers w c) \<longrightarrow>
      errorRetryTimeout (consumers (snd (onRejected cfg c count args err now random w)) c) =
        Some (RetryCallback args, \<lfloor>plusHalf random * 2 ^ 8\<rfloor> * ms)"
    using t by (simp add: min_def)
  show ?thesis using t r one eight by blast
qed

text \<open>
  The first load of consumer 0 is rejected, with the random number 0.25 and the interval
  1000: the retry is set 1000 ms ahead. At the counter 9 it is set 192000 ms ahead.
\<close>

theorem retry_scheduled_with_truncated_backoff_witness:
  "errorRetryTimeout (consumers
     (snd (onRejected retryConfig 0 1 [] (Some 13) 100 (1 / 4) loadingWorld)) 0) =
     Some (RetryCallback [], 1000) \<and>
   errorRetryTimeout (consumers
     (snd (onRejected retryConfig 0 9 [] (Some 13) 100 (1 / 4)
        (updConsumer 0 (\<lambda>s. s\<lparr>counter := 9\<rparr>) loadingWorld))) 0) =
     Some (RetryCallback [], 192000)"
proof -
  have h: "(0::real) \<le> 1 / 4" "(1 / 4 :: real) < 1"
    "rejectRetryInterval retryConfig = RetryMs 1000" "(1000::int) \<noteq> 0"
    "\<bar>1000 :: int\<bar> < 2 ^ 44"
    by (simp_all add: retryConfig_def)
  have c: "counter (consumers loadingWorld 0) = 1"
    "counter (consumers (updConsumer 0 (\<lambda>s. s\<lparr>counter := 9\<rparr>) loadingWorld) 0) = 9"
    by (simp_all add: loadingWorld_def freshConsumer_def)
  have f: "\<lfloor>plusHalf (1 / 4) * 2 ^ min (1::nat) 8\<rfloor> = 1" "\<lfloor>plusHalf (1 / 4) * 2 ^ 8\<rfloor> = 192"
    by (simp_all add: plusHalf_examples)
  have n: "(8::nat) \<le> 9" by simp
  note t = retry_scheduled_with_truncated_backoff [OF h]
  have "errorRetryTimeout (consumers
      (snd (onRejected retryConfig 0 1 [] (Some 13) 100 (1 / 4) loadingWorld)) 0) =
      Some (RetryCallback [], 1000)"
    using t [of 0 1 "[]" "Some 13" 100 loadingWorld, THEN conjunct1] by (simp only: c f) simp
  moreover have "errorRetryTimeout (consumers
      (snd (onRejected retryConfig 0 9 [] (Some 13) 100 (1 / 4)
         (updConsumer 0 (\<lambda>s. s\<lparr>counter := 9\<rparr>) loadingWorld))) 0) =
      Some (RetryCallback [], 192000)"
    using t [of 0 9 "[]" "Some 13" 100 "updConsumer 0 (\<lambda>s. s\<lparr>counter := 9\<rparr>) loadingWorld",
        THEN conjunct2, THEN conjunct2, THEN conjunct2, THEN conjunct2, rule_format]
    by (simp only: c n f) simp
  ultimately show ?thesis by (rule conjI)
qed

text \<open>
  Claim C5 as stated fails. The first load of consumer 0 is rejected, with the interval
  1000. With the random number 0.75 the retry is set 2000 ms ahead, which is not below
  1500. With the random number 0.25 it is set 1000 ms ahead, where the specification's
  formula gives 1500.
\<close>

theorem retry_scheduled_outside_stated_range:
  "counter (consumers loadingWorld 0) = 1 \<and>
   errorRetryTimeout (consumers
     (snd (onRejected retryConfig 0 1 [] (Some 13) 100 (3 / 4) loadingWorld)) 0) =
     Some (RetryCallback [], 2000) \<and>
   \<not> (2000 < (1500::int)) \<and>
   errorRetryTimeout (consumers
     (snd (onRejected retryConfig 0 1 [] (Some 13) 100 (1 / 4) loadingWorld)) 0) =
     Some (RetryCallback [], 1000) \<and>
   specRetryDelay (1 / 4) 1 1000 = 1500"
proof -
  have c: "counter (consumers loadingWorld 0) = 1"
    by (simp add: loadingWorld_def freshConsumer_def)
  have d: "retryDelay (RetryMs 1000) (Suc 0) (3 / 4) = Some 2000"
    "retryDelay (RetryMs 1000) (Suc 0) (1 / 4) = Some 1000"
    by (simp_all add: retryDelay_def toInt32_def plusHalf_examples)
  have i: "rejectRetryInterval retryConfig = RetryMs 1000" by (simp add: retryConfig_def)
  show ?thesis
    by (simp add: onRejected_retry_timer c d i specRetryDelay_def)
qed

subsection \<open>The slow threshold\<close>

text \<open>
  Claim C6. The reload of consumer 0 is in flight when the slow threshold elapses: the timer
  runs \<^verbatim>\<open>handleLoading\<close> with \<^verbatim>\<open>isReloading\<close> and \<^verbatim>\<open>isSlow\<close> true, which dispatches
  \<^verbatim>\<open>RELOADING_SLOW\<close>, and the reducer answers with the state \<^verbatim>\<open>RELOADING\<close>. The state the
  consumer shows is not \<^verbatim>\<open>RELOADING_SLOW\<close>. (For a first load the state does become
  \<^verbatim>\<open>PENDING_SLOW\<close>.)
\<close>

theorem reloading_slow_never_shown:
  "state (localRecord (consumers reloadingWorld 0)) = RELOADING \<and>
   state (localRecord (consumers (handleLoading exampleConfig 0 True True 1 6000 reloadingWorld) 0)) =
     RELOADING \<and>
   state (localRecord (consumers (handleLoading exampleConfig 0 False True 0 5000 loadingWorld) 0)) =
     PENDING_SLOW"
  by (simp add: handleLoading_slow_state) (simp add: reloadingWorld_def)

subsection \<open>Rejection\<close>

text \<open>
  Claim C7, as amended. When a promise of a mounted consumer is rejected and its captured
  \<open>count\<close> is the consumer's counter, the consumer's reducer state becomes the state
  \<^verbatim>\<open>REJECTED\<close> with the error and no response, and the record committed for its key
  likewise carries the error and no response: the previous response is discarded in both.
\<close>

theorem rejection_clears_response:
  assumes "hasMounted (consumers w c)" and "n = counter (consumers w c)"
    and "cacheKey cfg = Some k"
  shows "localRecord (consumers (snd (onRejected cfg c n args err now random w)) c) =
           \<lparr>state = REJECTED, response = None, error = err, updated = None,
            isCached = Some True\<rparr> \<and>
         records (snd (onRejected cfg c n args err now random w)) k =
           Some \<lparr>state = REJECTED, response = None, error = err, updated = Some now,
                 isCached = None\<rparr>"
proof -
  have g: "handleDataGuard c (Some n) w"
    using assms(1,2) by (rule current_guard)
  show ?thesis
    using handleData_applied_local [OF g, of _ "Some k"] handleData_applied_record [OF g, of k]
    by (simp add: onRejected_local onRejected_records assms(3) settledLocal_def)
qed

text \<open>The reload of consumer 0, which shows the response 7, is rejected with the error 13.\<close>

theorem rejection_clears_response_witness:
  "localRecord (consumers (snd (onRejected exampleConfig 0 2 [] (Some 13) 1100 0 reloadingWorld)) 0) =
     \<lparr>state = REJECTED, response = None, error = Some 13, updated = None, isCached = Some True\<rparr> \<and>
   records (snd (onRejected exampleConfig 0 2 [] (Some 13) 1100 0 reloadingWorld)) ''dog'' =
     Some \<lparr>state = REJECTED, response = None, error = Some 13, updated = Some 1100,
           isCached = None\<rparr>"
proof -
  have h: "hasMounted (consumers reloadingWorld 0)" "2 = counter (consumers reloadingWorld 0)"
    "cacheKey exampleConfig = Some ''dog''"
    by (simp_all add: exampleConfig_def reloadingWorld_def)
  show ?thesis by (rule rejection_clears_response [OF h])
qed

text \<open>
  Claim C7 as stated fails. Consumer 0 shows the response 7 and the record of its key holds
  it. Its reload is rejected with the error 13; the load function made no optimistic call.
  Afterwards the consumer shows no response and the record holds none.
\<close>

theorem rejection_discards_previous_response:
  "response (localRecord (consumers reloadingWorld 0)) = Some 7 \<and>
   map_option response (records reloadingWorld ''dog'') = Some (Some 7) \<and>
   response (localRecord (consumers
      (snd (onRejected exampleConfig 0 2 [] (Some 13) 1100 0 reloadingWorld)) 0)) = None \<and>
   map_option response
     (records (snd (onRejected exampleConfig 0 2 [] (Some 13) 1100 0 reloadingWorld)) ''dog'') =
     Some None"
proof -
  have g: "handleDataGuard 0 (Some 2) reloadingWorld"
    by (simp add: handleDataGuard_def reloadingWorld_def)
  have k: "cacheKey exampleConfig = Some ''dog''" by (simp add: exampleConfig_def)
  show ?thesis
    using handleData_applied_local [OF g, of _ "Some ''dog''"]
      handleData_applied_record [OF g, of "''dog''"]
    by (simp add: onRejected_local onRejected_records k settledLocal_def reloadingWorld_def)
qed

subsection \<open>Suppression of automatic triggers\<close>

text \<open>
  Claim C8, as amended. An automatic (not manual) \<^verbatim>\<open>load\<close> of a consumer that has variables,
  whose serialised variables equal those of the previous render, returns at once: no load
  function is invoked and the world is unchanged.
\<close>

theorem automatic_load_suppressed:
  assumes "\<not> isManualInvoke opts" and "variables cfg \<noteq> None" and "isSameVariables cfg"
  shows "load cfg opts c rawArgs now w = (Suppressed, w)"
  using assms by (simp add: load_def)

text \<open>A consumer with the variables \<open>[1]\<close>, unchanged since the previous render.\<close>

theorem automatic_load_suppressed_witness:
  "load (exampleConfig\<lparr>variables := Some [Arg 1], isSameVariables := True\<rparr>) automatic 0 [] 3000
     resolvedWorld =
   (Suppressed, resolvedWorld)"
proof -
  have h: "\<not> isManualInvoke automatic"
    "variables (exampleConfig\<lparr>variables := Some [Arg 1], isSameVariables := True\<rparr>) \<noteq> None"
    "isSameVariables (exampleConfig\<lparr>variables := Some [Arg 1], isSameVariables := True\<rparr>)"
    by (simp_all add: automatic_def)
  show ?thesis by (rule automatic_load_suppressed [OF h])
qed

text \<open>
  Claim C8 as stated fails. Consumer 0 has no variables, so its parameters never change.
  Its first automatic load was resolved at time 50. An automatic trigger at time 3000 (a
  polling tick) is not suppressed: it invokes the load function a second time.
\<close>

theorem automatic_load_without_variables_not_suppressed:
  "fst (load (exampleConfig\<lparr>isSameVariables := True\<rparr>) automatic 0 [] 3000 resolvedWorld) =
     Started 2 1 \<and>
   calls (snd (load (exampleConfig\<lparr>isSameVariables := True\<rparr>) automatic 0 [] 3000
            resolvedWorld)) =
     [(0, None, []), (0, None, [])]"
  by (simp add: load_def loadCached_def records_get_def invokeFn_def Let_def
      exampleConfig_def automatic_def resolvedWorld_def numeral_2_eq_2)

subsection \<open>Updates without a sequence number\<close>

text \<open>
  Claim C9. An updater is \<^verbatim>\<open>handleData\<close> called with a record, no \<^verbatim>\<open>count\<close> and
  \<^verbatim>\<open>shouldBroadcast: false\<close>. When the consumer is mounted, whatever its counter, the record
  is dispatched to its reducer and committed to the cache under its key. The broadcast to a
  key whose only subscriber is the consumer is that call.
\<close>

theorem broadcast_record_ignores_counter:
  assumes "hasMounted (consumers w c)"
  shows "localRecord (consumers (handleData (Some k) c None r False now w) c) =
           reducer (localRecord (consumers w c)) (recordAction True r) \<and>
         records (handleData (Some k) c None r False now w) k = Some (r\<lparr>updated := Some now\<rparr>) \<and>
         (updaters w (Some k) = Some [c] \<longrightarrow>
            broadcastChanges k r now w = handleData (Some k) c None r False now w)"
  using assms
  by (simp add: handleData_False handleDataQuiet_def handleDataGuard_def commitData_consumers
      commitData_records broadcastChanges_def)

text \<open>
  Consumer 0 is waiting for its second invocation (its counter is 2) when a record resolved
  with 9 is broadcast to its key: the consumer shows 9.
\<close>

theorem broadcast_record_ignores_counter_witness:
  "counter (consumers reloadingWorld 0) = 2 \<and>
   localRecord (consumers (broadcastChanges ''dog''
       \<lparr>state = RESOLVED, response = Some 9, error = None, updated = None, isCached = None\<rparr>
       1100 reloadingWorld) 0) =
     \<lparr>state = RESOLVED, response = Some 9, error = None, updated = None, isCached = Some True\<rparr> \<and>
   records (broadcastChanges ''dog''
       \<lparr>state = RESOLVED, response = Some 9, error = None, updated = None, isCached = None\<rparr>
       1100 reloadingWorld) ''dog'' =
     Some \<lparr>state = RESOLVED, response = Some 9, error = None, updated = Some 1100,
           isCached = None\<rparr>"
proof -
  have h: "hasMounted (consumers reloadingWorld 0)" "counter (consumers reloadingWorld 0) = 2"
    "updaters reloadingWorld (Some ''dog'') = Some [0]"
    by (simp_all add: reloadingWorld_def)
  show ?thesis
    using broadcast_record_ignores_counter [OF h(1), of "''dog''"
        "\<lparr>state = RESOLVED, response = Some 9, error = None, updated = None, isCached = None\<rparr>"
        1100] h(2,3)
    by (simp add: reducer.simps recordAction_def)
qed

subsection \<open>Optimistic updates of another key\<close>

text \<open>
  Claim C10. When the call names a context and variables whose cache key is another key
  than the consumer's, the optimistic record is written to that key's entry of the records
  store and nothing else of the cache changes: no consumer's state changes (nothing is
  dispatched, here or at a subscriber), the subscriber lists, promises and suspender flags
  are as before and no load function is invoked. When the key aimed at is the consumer's
  own, or there is none, the call is \<^verbatim>\<open>handleData\<close> with the broadcast on. In both cases
  the callback, if any, is called last.
\<close>

theorem optimistic_write_to_other_key:
  "(optimisticCacheKey cfg strategy contextOrCallback = Some k' \<and> cacheKey cfg \<noteq> Some k' \<longrightarrow>
      (let w' = handleOptimisticData cfg strategy c data contextOrCallback callback st count now w
       in records w' =
            (records w)(k' \<mapsto> (newRecord st (newData (Some k') data st w))\<lparr>updated := Some now\<rparr>) \<and>
          consumers w' = consumers w \<and> updaters w' = updaters w \<and>
          promises w' = promises w \<and> suspenders w' = suspenders w \<and> calls w' = calls w)) \<and>
   (optimisticCacheKey cfg strategy contextOrCallback = None \<or>
    optimisticCacheKey cfg strategy contextOrCallback = cacheKey cfg \<longrightarrow>
      handleOptimisticData cfg strategy c data contextOrCallback callback st count now w =
        invokeCallback (newCallback contextOrCallback callback)
          (newData (optimisticCacheKey cfg strategy contextOrCallback) data st w)
          (handleData (cacheKey cfg) c (Some count)
             (newRecord st (newData (optimisticCacheKey cfg strategy contextOrCallback) data st w))
             True now w))"
  by (auto simp: handleOptimisticData_def invokeCallback_def Let_def split: option.splits)

text \<open>
  Consumer 0 of \<^verbatim>\<open>'dog'\<close> sets the response 5 for the context \<^verbatim>\<open>'cat'\<close>: only the record of
  \<^verbatim>\<open>'cat'\<close> is written. Without a target, the call is \<^verbatim>\<open>handleData\<close> on its own key.
\<close>

theorem optimistic_write_to_other_key_witness:
  "(let w' = handleOptimisticData exampleConfig CONTEXT_ONLY 0 (Data (Some 5))
              (Some (OptimisticContext (Some ''cat'') None)) None RESOLVED 2 100 sharedWorld
    in records w' ''cat'' =
         Some \<lparr>state = RESOLVED, response = Some 5, error = None, updated = Some 100,
               isCached = None\<rparr> \<and>
       consumers w' = consumers sharedWorld \<and> updaters w' = updaters sharedWorld) \<and>
   handleOptimisticData exampleConfig CONTEXT_ONLY 0 (Data (Some 5)) None None RESOLVED 2 100
     sharedWorld =
   handleData (Some ''dog'') 0 (Some 2)
     \<lparr>state = RESOLVED, response = Some 5, error = None, updated = None, isCached = None\<rparr>
     True 100 sharedWorld"
proof -
  have a: "optimisticCacheKey exampleConfig CONTEXT_ONLY
             (Some (OptimisticContext (Some ''cat'') None)) = Some ''cat''"
    "cacheKey exampleConfig \<noteq> Some ''cat''"
    "optimisticCacheKey exampleConfig CONTEXT_ONLY None = cacheKey exampleConfig"
    "cacheKey exampleConfig = Some ''dog''"
    by (simp_all add: optimisticCacheKey_def getCacheKey_def exampleConfig_def)
  have d: "\<And>k. newData k (Data (Some 5)) RESOLVED sharedWorld = Some (5::nat)"
    by (simp add: newData_def)
  have r: "newRecord RESOLVED (Some (5::nat)) =
      \<lparr>state = RESOLVED, response = Some 5, error = None, updated = None, isCached = None\<rparr>"
    by (simp add: newRecord_def)
  have c: "newCallback None None = None" by (simp add: newCallback_def)
  note t1 = optimistic_write_to_other_key [of exampleConfig CONTEXT_ONLY
      "Some (OptimisticContext (Some ''cat'') None)" "''cat''" 0 "Data (Some 5)" None RESOLVED 2 100
      sharedWorld, THEN conjunct1, rule_format, OF conjI [OF a(1) a(2)]]
  note t2 = optimistic_write_to_other_key [of exampleConfig CONTEXT_ONLY None _ 0
      "Data (Some 5)" None RESOLVED 2 100 sharedWorld, THEN conjunct2, rule_format,
      OF disjI2 [OF a(3)]]
  show ?thesis
    using t1 t2 by (simp add: Let_def d r c a(3,4) invokeCallback_def)
qed

end
